theory Spec2Isabelle
  imports Main "HOL-Library.Word" "HOL-Library.Signed_Division"
begin

section \<open>MatchHistogram: the curve engine of \<open>MatchHistogram.cpp\<close>\<close>

subsection \<open>Machine integers\<close>

text \<open>
  A C++ \<open>int\<close> is 32 bits wide. Values of type \<open>int\<close> are modelled as HOL integers,
  and \<open>int32\<close> writes out the two's complement wrap-around at the places where the
  source's arithmetic can leave the range (signed overflow is undefined in C++; the wrap
  is what the usual targets compute). \<open>unsigned int\<close> is \<open>32 word\<close> and
  \<open>unsigned char\<close> / \<open>uint8_t\<close> is \<open>8 word\<close>. The conversion from \<open>unsigned int\<close> to
  \<open>int\<close> is \<open>sint\<close>, the conversion from \<open>int\<close> to \<open>unsigned char\<close> is \<open>word_of_int\<close>.
\<close>

definition int32 :: "int \<Rightarrow> int" where
  "int32 v = (v + 2147483648) mod 4294967296 - 2147483648"

text \<open>
  \<open>IntDiv\<close>: \<open>((x < 0) ^ (y < 0)) ? ((x - (y >> 1)) / y) : ((x + (y >> 1)) / y)\<close>.
  \<open>/\<close> truncates towards zero (\<open>sdiv\<close>), \<open>y >> 1\<close> is the arithmetic shift (\<open>y div 2\<close>).
\<close>

definition IntDiv :: "int \<Rightarrow> int \<Rightarrow> int" where
  "IntDiv x y =
     (if (x < 0) \<noteq> (y < 0) then int32 (int32 (x - y div 2) sdiv y)
      else int32 (int32 (x + y div 2) sdiv y))"

subsection \<open>Planes and the curve data\<close>

text \<open>
  A plane is handed over as a pointer; \<open>ptr[k]\<close> is the byte at offset \<open>k\<close> from it, so
  the memory behind a pointer is a function from offsets to bytes. Row \<open>h\<close> starts at
  offset \<open>h * stride\<close>.
\<close>

type_synonym plane = "int \<Rightarrow> 8 word"

text \<open>The three arrays of \<open>class CurveData\<close>, each of 256 entries.\<close>

record CurveData =
  sum_arr :: "32 word list"
  div_arr :: "32 word list"
  curve :: "8 word list"

text \<open>
  \<open>Create\<close> clears \<open>sum\<close> and \<open>div\<close>; every slot of \<open>curve\<close> is written by the raw-curve
  loop before it is read, so the model starts \<open>curve\<close> from zeros as well.
\<close>

definition clear_data :: "CurveData" where
  "clear_data = \<lparr>sum_arr = replicate 256 0, div_arr = replicate 256 0, curve = replicate 256 0\<rparr>"

text \<open>One pixel of the populate loop: \<open>sum[ptr1[w]] += ptr2[w]; div[ptr1[w]] += 1\<close>.\<close>

definition accumulate :: "plane \<Rightarrow> plane \<Rightarrow> int \<Rightarrow> CurveData \<Rightarrow> CurveData" where
  "accumulate ptr1 ptr2 off cd =
     (let k = unat (ptr1 off) in
      cd\<lparr>sum_arr := (sum_arr cd)[k := sum_arr cd ! k + ucast (ptr2 off)],
         div_arr := (div_arr cd)[k := div_arr cd ! k + 1]\<rparr>)"

definition populate :: "plane \<Rightarrow> plane \<Rightarrow> int \<Rightarrow> int \<Rightarrow> int \<Rightarrow> CurveData \<Rightarrow> CurveData" where
  "populate ptr1 ptr2 width height stride cd =
     fold (\<lambda>h. fold (\<lambda>w. accumulate ptr1 ptr2 (int h * stride + int w)) [0..<nat width])
          [0..<nat height] cd"

text \<open>\<open>IntDiv(sum[i], div[i])\<close> stored into an \<open>unsigned char\<close>.\<close>

definition mean_at :: "CurveData \<Rightarrow> nat \<Rightarrow> 8 word" where
  "mean_at cd i = word_of_int (IntDiv (sint (sum_arr cd ! i)) (sint (div_arr cd ! i)))"

definition raw_curve :: "CurveData \<Rightarrow> CurveData" where
  "raw_curve cd =
     fold (\<lambda>i c. c\<lparr>curve := (curve c)[i := (if div_arr c ! i \<noteq> 0 then mean_at c i else 0)]\<rparr>)
          [0..<256] cd"

text \<open>The search for \<open>flat\<close>; the second defined index ends the loop with \<open>-1\<close>.\<close>

fun find_flat :: "32 word list \<Rightarrow> nat list \<Rightarrow> int \<Rightarrow> int" where
  "find_flat d [] flat = flat"
| "find_flat d (i # is) flat =
     (if d ! i \<noteq> 0 then (if flat = -1 then find_flat d is (int i) else -1)
      else find_flat d is flat)"

definition uniform :: "nat \<Rightarrow> CurveData \<Rightarrow> CurveData" where
  "uniform flat cd = fold (\<lambda>i c. c\<lparr>curve := (curve c)[i := curve c ! flat]\<rparr>) [0..<256] cd"

text \<open>
  \<open>scan_down d i\<close> is the loop \<open>for (p = i - 1; p >= 0; p--)\<close> and \<open>scan_up d ns\<close> the
  loop over the ascending indices \<open>ns\<close>; both stop at the first defined index and give
  \<open>-1\<close> when there is none.
\<close>

fun scan_down :: "32 word list \<Rightarrow> nat \<Rightarrow> int" where
  "scan_down d 0 = -1"
| "scan_down d (Suc p) = (if d ! p \<noteq> 0 then int p else scan_down d p)"

fun scan_up :: "32 word list \<Rightarrow> nat list \<Rightarrow> int" where
  "scan_up d [] = -1"
| "scan_up d (n # ns) = (if d ! n \<noteq> 0 then int n else scan_up d ns)"

definition clamp255 :: "int \<Rightarrow> int" where
  "clamp255 v = min (max v 0) 255"

text \<open>Writing a filled value: \<open>curve[i] = v; sum[i] = curve[i]; div[i] = 1\<close>.\<close>

definition set_slot :: "nat \<Rightarrow> int \<Rightarrow> CurveData \<Rightarrow> CurveData" where
  "set_slot i v cd =
     (let c = (word_of_int v :: 8 word) in
      cd\<lparr>curve := (curve cd)[i := c], sum_arr := (sum_arr cd)[i := ucast c],
         div_arr := (div_arr cd)[i := 1]\<rparr>)"

definition fill_missing :: "nat \<Rightarrow> CurveData \<Rightarrow> CurveData" where
  "fill_missing i cd =
     (if div_arr cd ! i = 0 then
        (let prev = scan_down (div_arr cd) i;
             next = scan_up (div_arr cd) [Suc i..<256]
         in if prev \<noteq> -1 \<and> next \<noteq> -1 then
              set_slot i (clamp255 (uint (curve cd ! nat prev) +
                  IntDiv ((int i - prev) * (uint (curve cd ! nat next) - uint (curve cd ! nat prev)))
                         (next - prev))) cd
            else cd)
      else cd)"

definition gap_fill :: "CurveData \<Rightarrow> CurveData" where
  "gap_fill cd = fold fill_missing [0..<256] cd"

text \<open>The two halves of one round of the \<open>while\<close> loop.\<close>

definition extend_bottom :: "CurveData \<Rightarrow> CurveData" where
  "extend_bottom cd =
     (let first = scan_up (div_arr cd) [0..<256] in
      fold (\<lambda>i c.
              if first * 2 - int i \<le> 255 then
                (if div_arr c ! nat (first * 2 - int i) \<noteq> 0 then
                   set_slot i (clamp255 (uint (curve c ! nat first) * 2 -
                                         uint (curve c ! nat (first * 2 - int i)))) c
                 else c)
              else c)
           [0..<nat first] cd)"

definition extend_top :: "CurveData \<Rightarrow> CurveData" where
  "extend_top cd =
     (let last = scan_down (div_arr cd) 256 in
      fold (\<lambda>i c.
              if last * 2 - int i \<ge> 0 then
                (if div_arr c ! nat (last * 2 - int i) \<noteq> 0 then
                   set_slot i (clamp255 (uint (curve c ! nat last) * 2 -
                                         uint (curve c ! nat (last * 2 - int i)))) c
                 else c)
              else c)
           (rev [nat (last + 1)..<256]) cd)"

definition extend_round :: "CurveData \<Rightarrow> CurveData" where
  "extend_round cd =
     (let c1 = (if div_arr cd ! 0 = 0 then extend_bottom cd else cd)
      in if div_arr c1 ! 255 = 0 then extend_top c1 else c1)"

text \<open>
  \<open>while (div[0] == 0 || div[255] == 0)\<close>: the loop has no bound of its own, so a run
  that never leaves it is the value \<open>None\<close>.
\<close>

partial_function (option) extend_loop :: "CurveData \<Rightarrow> CurveData option" where
  "extend_loop cd =
     (if div_arr cd ! 0 = 0 \<or> div_arr cd ! 255 = 0 then extend_loop (extend_round cd)
      else Some cd)"

declare extend_loop.simps [code]

text \<open>
  The smoothing of one index: \<open>sum[i] = 0; div[i] = 0\<close>, then the loop over
  \<open>j = -smoothing_window .. smoothing_window - 1\<close>. Where \<open>i + j\<close> would leave the range
  of \<open>int\<close> the wrapped value is negative and the exact one is at least 256, so the test
  fails either way and the sum is written without the wrap.
\<close>

definition smooth_at :: "int \<Rightarrow> nat \<Rightarrow> CurveData \<Rightarrow> CurveData" where
  "smooth_at sw i cd =
     fold (\<lambda>j c. if int i + j \<ge> 0 \<and> int i + j < 256 then
                    c\<lparr>sum_arr := (sum_arr c)[i := sum_arr c ! i + ucast (curve c ! nat (int i + j))],
                       div_arr := (div_arr c)[i := div_arr c ! i + 1]\<rparr>
                  else c)
          [- sw..sw - 1]
          (cd\<lparr>sum_arr := (sum_arr cd)[i := 0], div_arr := (div_arr cd)[i := 0]\<rparr>)"

definition smooth :: "int \<Rightarrow> CurveData \<Rightarrow> CurveData" where
  "smooth sw cd = (if sw > 0 then fold (smooth_at sw) [0..<256] cd else cd)"

definition recompute :: "CurveData \<Rightarrow> CurveData" where
  "recompute cd = fold (\<lambda>i c. c\<lparr>curve := (curve c)[i := mean_at c i]\<rparr>) [0..<256] cd"

text \<open>The block \<open>if (!raw) { ... }\<close> of \<open>Create\<close>.\<close>

definition postprocess :: "int \<Rightarrow> CurveData \<Rightarrow> CurveData option" where
  "postprocess sw cd =
     (let flat = find_flat (div_arr cd) [0..<256] (-1) in
      if flat \<noteq> -1 then Some (uniform (nat flat) cd)
      else map_option (\<lambda>c. recompute (smooth sw c)) (extend_loop (gap_fill cd)))"

definition Create ::
  "plane \<Rightarrow> plane \<Rightarrow> int \<Rightarrow> int \<Rightarrow> int \<Rightarrow> bool \<Rightarrow> int \<Rightarrow> CurveData option" where
  "Create ptr1 ptr2 width height stride raw smoothing_window =
     (let cd = raw_curve (populate ptr1 ptr2 width height stride clear_data)
      in if \<not> raw then postprocess smoothing_window cd else Some cd)"

subsection \<open>Applying and drawing the curve\<close>

text \<open>\<open>Process\<close>: \<open>dstp[w] = curve[srcp[w]]\<close> for every pixel, both pointers advancing by \<open>stride\<close>.\<close>

definition Process :: "CurveData \<Rightarrow> plane \<Rightarrow> plane \<Rightarrow> int \<Rightarrow> int \<Rightarrow> int \<Rightarrow> plane" where
  "Process cd srcp dstp width height stride =
     fold (\<lambda>h. fold (\<lambda>w p. p(int h * stride + int w :=
                                 curve cd ! unat (srcp (int h * stride + int w))))
                     [0..<nat width])
          [0..<nat height] dstp"

text \<open>\<open>Show\<close>: \<open>ptr[((255 - curve[i]) * stride) + i] = color\<close>.\<close>

definition Show :: "CurveData \<Rightarrow> plane \<Rightarrow> int \<Rightarrow> 8 word \<Rightarrow> plane" where
  "Show cd ptr stride color =
     fold (\<lambda>i p. p((255 - uint (curve cd ! i)) * stride + int i := color)) [0..<256] ptr"

text \<open>
  \<open>Debug\<close>: the first loop writes \<open>curve[i]\<close> at rows \<open>255 - j\<close> for \<open>j = 0 .. curve[i]\<close>, the
  second loop writes 255 at row \<open>255 - curve[i]\<close> where \<open>curve[i] > 0\<close>.
\<close>

definition Debug :: "CurveData \<Rightarrow> plane \<Rightarrow> int \<Rightarrow> plane" where
  "Debug cd ptr stride =
     (let bars =
            fold (\<lambda>i. fold (\<lambda>j p. p((255 - int j) * stride + int i := curve cd ! i))
                            [0..<Suc (unat (curve cd ! i))])
                 [0..<256] ptr
      in fold (\<lambda>i p. if curve cd ! i > 0
                      then p((255 - uint (curve cd ! i)) * stride + int i := 255) else p)
              [0..<256] bars)"

text \<open>\<open>fillPlane\<close>: \<open>memset(data, value, width)\<close> for each of \<open>height\<close> rows.\<close>

definition fillPlane :: "plane \<Rightarrow> int \<Rightarrow> int \<Rightarrow> int \<Rightarrow> int \<Rightarrow> plane" where
  "fillPlane data width height stride v =
     fold (\<lambda>y. fold (\<lambda>x p. p(int y * stride + int x := word_of_int v)) [0..<nat width])
          [0..<nat height] data"

subsection \<open>The filter: configuration\<close>

datatype VSColorFamily = cmGray | cmRGB | cmYUV | cmYCoCg | cmCompat

record VSFormat =
  colorFamily :: VSColorFamily
  bitsPerSample :: int
  numPlanes :: int
  subSamplingW :: int
  subSamplingH :: int

text \<open>
  \<open>VSVideoInfo\<close>, with the fields the filter reads. A null \<open>format\<close> pointer (variable
  format) is \<open>None\<close>; formats are registered once, so equal pointers are equal formats.
  Width or height 0 means variable dimensions.
\<close>

record VSVideoInfo =
  vi_format :: "VSFormat option"
  vi_width :: int
  vi_height :: int

text \<open>
  The arguments in the map \<open>in\<close>: an absent optional argument is \<open>None\<close>, integers are
  64 bits wide, clips are given by their video info. \<open>propNumElements\<close> is at most 0 for an
  absent or empty \<open>planes\<close>, which is the empty list here.
\<close>

record CreateArgs =
  arg_clip1 :: VSVideoInfo
  arg_clip2 :: VSVideoInfo
  arg_clip3 :: "VSVideoInfo option"
  arg_raw :: "int option"
  arg_show :: "int option"
  arg_debug :: "int option"
  arg_smoothing_window :: "int option"
  arg_planes :: "int list"

record MatchHistogramData =
  d_raw :: bool
  d_show :: bool
  d_debug :: bool
  d_smoothing_window :: int
  d_process :: "int list"
  d_vi :: VSVideoInfo

text \<open>\<open>int64ToIntS\<close> of VSHelper.h saturates a 64-bit value to the range of \<open>int\<close>.\<close>

definition int64ToIntS :: "int \<Rightarrow> int" where
  "int64ToIntS i = (if i > 2147483647 then 2147483647
                    else if i < - 2147483648 then - 2147483648 else i)"

definition msg_window :: string where
  "msg_window = ''MatchHistogram: smoothing_window must not be negative.''"
definition msg_format :: string where
  "msg_format = ''MatchHistogram: the clips must have the same format.''"
definition msg_dimensions :: string where
  "msg_dimensions = ''MatchHistogram: the first two clips must have the same dimensions.''"
definition msg_constant :: string where
  "msg_constant = ''MatchHistogram: the clips must have constant format and dimensions.''"
definition msg_depth :: string where
  "msg_depth = ''MatchHistogram: the clips must have 8 bits per sample and must not be RGB.''"
definition msg_range :: string where
  "msg_range = ''MatchHistogram: plane index out of range''"
definition msg_twice :: string where
  "msg_twice = ''MatchHistogram: plane specified twice''"
definition msg_show :: string where
  "msg_show = ''MatchHistogram: clips must be at least 256x256 pixels when show is True.''"
definition msg_debug :: string where
  "msg_debug = ''MatchHistogram: only one plane can be processed at a time when debug is True.''"

text \<open>
  The loop over the elements of \<open>planes\<close>, filling \<open>process\<close>; \<open>idx\<close> is the source's
  variable \<open>o\<close>.
\<close>

fun mark_planes :: "int \<Rightarrow> int list \<Rightarrow> int list \<Rightarrow> string + int list" where
  "mark_planes n [] process = Inr process"
| "mark_planes n (v # vs) process =
     (let idx = int64ToIntS v in
      if idx < 0 \<or> idx \<ge> n then Inl msg_range
      else if process ! nat idx \<noteq> 0 then Inl msg_twice
      else mark_planes n vs (process[nat idx := 1]))"

text \<open>
  \<open>process\<close> after \<open>memset\<close> and \<open>if (m <= 0) d.process[0] = 1\<close>: without \<open>planes\<close> only
  the first plane is processed.
\<close>

definition initial_process :: "CreateArgs \<Rightarrow> int list" where
  "initial_process a = (if arg_planes a = [] then [1, 0, 0] else [0, 0, 0])"

definition flag_of :: "int option \<Rightarrow> bool" where
  "flag_of a = (case a of None \<Rightarrow> False | Some v \<Rightarrow> v \<noteq> 0)"

text \<open>
  \<open>MatchHistogramCreate\<close>: \<open>Inl\<close> is the message given to \<open>setError\<close> (no filter is
  created), \<open>Inr\<close> the instance data handed to \<open>createFilter\<close>.
\<close>

definition MatchHistogramCreate :: "CreateArgs \<Rightarrow> string + MatchHistogramData" where
  "MatchHistogramCreate a =
     (let raw = flag_of (arg_raw a);
          debug = flag_of (arg_debug a);
          shw = (if debug then False else flag_of (arg_show a));
          sw = (case arg_smoothing_window a of None \<Rightarrow> 8 | Some v \<Rightarrow> int64ToIntS v)
      in
      if sw < 0 then Inl msg_window
      else
        (let vi = arg_clip1 a;
             vi2 = arg_clip2 a;
             vi3 = (case arg_clip3 a of None \<Rightarrow> arg_clip1 a | Some c \<Rightarrow> c)
         in
         if vi_format vi \<noteq> vi_format vi2 \<or> vi_format vi \<noteq> vi_format vi3 then Inl msg_format
         else if vi_width vi \<noteq> vi_width vi2 \<or> vi_height vi \<noteq> vi_height vi2
           then Inl msg_dimensions
         else
           (case vi_format vi of
              None \<Rightarrow> Inl msg_constant
            | Some fmt \<Rightarrow>
                if vi_width vi = 0 \<or> vi_height vi = 0 \<or> vi_width vi3 = 0 \<or> vi_height vi3 = 0
                  then Inl msg_constant
                else if colorFamily fmt = cmRGB \<or> bitsPerSample fmt > 8 then Inl msg_depth
                else
                  (case mark_planes (numPlanes fmt) (arg_planes a) (initial_process a) of
                     Inl e \<Rightarrow> Inl e
                   | Inr process \<Rightarrow>
                       if shw \<and> (vi_width vi < 256 \<or> vi_height vi < 256 \<or>
                                  vi_width vi3 < 256 \<or> vi_height vi3 < 256)
                         then Inl msg_show
                       else if debug then
                         (if process ! 0 + process ! 1 + process ! 2 > 1 then Inl msg_debug
                          else Inr \<lparr>d_raw = raw, d_show = shw, d_debug = debug,
                                    d_smoothing_window = sw, d_process = process,
                                    d_vi = vi\<lparr>vi_width := 256, vi_height := 256\<rparr>\<rparr>)
                       else Inr \<lparr>d_raw = raw, d_show = shw, d_debug = debug,
                                 d_smoothing_window = sw, d_process = process, d_vi = vi3\<rparr>))))"

subsection \<open>The filter: one output frame\<close>

text \<open>
  A frame is the list of its planes; \<open>getReadPtr\<close>/\<open>getWritePtr\<close>, \<open>getFrameWidth\<close>,
  \<open>getFrameHeight\<close> and \<open>getStride\<close> are the fields of a plane. Frames are values, so
  writing through \<open>getWritePtr\<close> changes the output frame only, as the host's
  copy-on-write does.
\<close>

record VSPlane =
  p_width :: int
  p_height :: int
  p_stride :: int
  p_data :: plane

type_synonym VSFrame = "VSPlane list"

text \<open>
  Modelled from the spec: the host's frame allocation (\<open>newVideoFrame\<close>,
  \<open>newVideoFrame2\<close> of VapourSynth.h) is not part of the repository. A new plane has the
  frame's dimensions, shifted by the subsampling for the second and third plane, a stride
  chosen by the host and unspecified content; \<open>newVideoFrame2\<close> takes plane \<open>planes[p]\<close>
  of \<open>plane_src[p]\<close> where that is not null, which is how unselected channels pass through
  from the base clip.
\<close>

record VSCore =
  core_stride :: "int \<Rightarrow> int"
  core_junk :: "nat \<Rightarrow> plane"

definition new_plane :: "VSCore \<Rightarrow> VSFormat \<Rightarrow> int \<Rightarrow> int \<Rightarrow> nat \<Rightarrow> VSPlane" where
  "new_plane core fmt width height p =
     (let w = (if p = 0 then width else drop_bit (nat (subSamplingW fmt)) width);
          h = (if p = 0 then height else drop_bit (nat (subSamplingH fmt)) height)
      in \<lparr>p_width = w, p_height = h, p_stride = core_stride core w, p_data = core_junk core p\<rparr>)"

definition newVideoFrame :: "VSFormat \<Rightarrow> int \<Rightarrow> int \<Rightarrow> VSCore \<Rightarrow> VSFrame" where
  "newVideoFrame fmt width height core =
     map (new_plane core fmt width height) [0..<nat (numPlanes fmt)]"

definition newVideoFrame2 ::
  "VSFormat \<Rightarrow> int \<Rightarrow> int \<Rightarrow> VSFrame option list \<Rightarrow> nat list \<Rightarrow> VSCore \<Rightarrow> VSFrame" where
  "newVideoFrame2 fmt width height plane_src planes core =
     map (\<lambda>p. case plane_src ! p of
                 None \<Rightarrow> new_plane core fmt width height p
               | Some f \<Rightarrow> f ! (planes ! p))
         [0..<nat (numPlanes fmt)]"

definition write_plane :: "nat \<Rightarrow> plane \<Rightarrow> VSFrame \<Rightarrow> VSFrame" where
  "write_plane p data f = f[p := (f ! p)\<lparr>p_data := data\<rparr>]"

definition show_colors :: "8 word list" where
  "show_colors = [235, 160, 96]"

text \<open>
  The loops over the planes; a call of \<open>Create\<close> that does not return leaves the frame
  function without a result (\<open>None\<close>).
\<close>

fun for_planes :: "(nat \<Rightarrow> VSFrame \<Rightarrow> VSFrame option) \<Rightarrow> nat list \<Rightarrow> VSFrame \<Rightarrow> VSFrame option" where
  "for_planes body [] dst = Some dst"
| "for_planes body (p # ps) dst =
     (case body p dst of None \<Rightarrow> None | Some dst' \<Rightarrow> for_planes body ps dst')"

definition create_for :: "MatchHistogramData \<Rightarrow> VSFrame \<Rightarrow> VSFrame \<Rightarrow> nat \<Rightarrow> CurveData option" where
  "create_for d src1 src2 plane =
     Create (p_data (src1 ! plane)) (p_data (src2 ! plane))
            (p_width (src1 ! plane)) (p_height (src1 ! plane)) (p_stride (src1 ! plane))
            (d_raw d) (d_smoothing_window d)"

text \<open>The body of the plane loop in the branch \<open>if (d->debug)\<close>.\<close>

definition debug_plane ::
  "MatchHistogramData \<Rightarrow> VSFrame \<Rightarrow> VSFrame \<Rightarrow> nat \<Rightarrow> VSFrame \<Rightarrow> VSFrame option" where
  "debug_plane d src1 src2 plane dst =
     (let pl = dst ! plane;
          dst1 = write_plane plane
                   (fillPlane (p_data pl) (p_width pl) (p_height pl) (p_stride pl)
                              (if plane \<noteq> 0 then 128 else 0)) dst
      in if d_process d ! plane = 0 then Some dst1
         else (case create_for d src1 src2 plane of
                 None \<Rightarrow> None
               | Some cd \<Rightarrow>
                   Some (write_plane 0 (Debug cd (p_data (dst1 ! 0)) (p_stride (dst1 ! 0))) dst1)))"

text \<open>The body of the plane loop in the branch \<open>// Not debug\<close>.\<close>

definition show_fill :: "VSFormat \<Rightarrow> nat \<Rightarrow> VSFrame \<Rightarrow> VSFrame" where
  "show_fill fmt plane dst =
     write_plane plane
       (fillPlane (p_data (dst ! plane))
          (drop_bit (if plane \<noteq> 0 then nat (subSamplingW fmt) else 0) 256)
          (drop_bit (if plane \<noteq> 0 then nat (subSamplingH fmt) else 0) 256)
          (p_stride (dst ! plane))
          (if plane \<noteq> 0 then 128 else 16)) dst"

definition normal_plane ::
  "MatchHistogramData \<Rightarrow> VSFormat \<Rightarrow> VSFrame \<Rightarrow> VSFrame \<Rightarrow> VSFrame \<Rightarrow> nat \<Rightarrow> VSFrame
     \<Rightarrow> VSFrame option" where
  "normal_plane d fmt src1 src2 src3 plane dst =
     (if d_process d ! plane \<noteq> 0 then
        (case create_for d src1 src2 plane of
           None \<Rightarrow> None
         | Some cd \<Rightarrow>
             (let dst1 = write_plane plane
                           (Process cd (p_data (src3 ! plane)) (p_data (dst ! plane))
                              (p_width (src3 ! plane)) (p_height (src3 ! plane))
                              (p_stride (dst ! plane))) dst
              in if d_show d then
                   (let dst2 = show_fill fmt plane dst1
                    in Some (write_plane 0
                               (Show cd (p_data (dst2 ! 0)) (p_stride (dst2 ! 0))
                                  (show_colors ! plane)) dst2))
                 else Some dst1))
      else Some (if d_show d then show_fill fmt plane dst else dst))"

text \<open>
  \<open>MatchHistogramGetFrame\<close> for \<open>arAllFramesReady\<close>; \<open>src1\<close>, \<open>src2\<close> and \<open>src3\<close> are frame
  \<open>n\<close> of the three clips. The format pointer of the instance is not null (construction
  refuses a variable format), a null one is a run without a result.
\<close>

definition MatchHistogramGetFrame ::
  "MatchHistogramData \<Rightarrow> VSCore \<Rightarrow> VSFrame \<Rightarrow> VSFrame \<Rightarrow> VSFrame \<Rightarrow> VSFrame option" where
  "MatchHistogramGetFrame d core src1 src2 src3 =
     (case vi_format (d_vi d) of
        None \<Rightarrow> None
      | Some fmt \<Rightarrow>
          if d_debug d then
            for_planes (debug_plane d src1 src2) [0..<nat (numPlanes fmt)]
              (newVideoFrame fmt (vi_width (d_vi d)) (vi_height (d_vi d)) core)
          else
            for_planes (normal_plane d fmt src1 src2 src3) [0..<nat (numPlanes fmt)]
              (newVideoFrame2 fmt (vi_width (d_vi d)) (vi_height (d_vi d))
                 [if d_process d ! 0 \<noteq> 0 then None else Some src3,
                  if d_process d ! 1 \<noteq> 0 then None else Some src3,
                  if d_process d ! 2 \<noteq> 0 then None else Some src3]
                 [0, 1, 2] core))"

subsection \<open>Properties stated by the specification\<close>

text \<open>
  \<open>q\<close> is the integer nearest to the rational \<open>x / y\<close>, a tie going to the candidate away
  from zero: \<open>\<bar>x / y - q\<bar> \<le> 1 / 2\<close>, and \<open>\<bar>q\<bar> > \<bar>x / y\<bar>\<close> when the distance is exactly
  \<open>1 / 2\<close>, both multiplied by \<open>\<bar>y\<bar>\<close>.
\<close>

definition nearest_away :: "int \<Rightarrow> int \<Rightarrow> int \<Rightarrow> bool" where
  "nearest_away x y q \<longleftrightarrow>
     2 * \<bar>x - q * y\<bar> \<le> \<bar>y\<bar> \<and> (2 * \<bar>x - q * y\<bar> = \<bar>y\<bar> \<longrightarrow> \<bar>x\<bar> < \<bar>q * y\<bar>)"

text \<open>The offsets visited by the populate loop, in order.\<close>

definition offsets :: "int \<Rightarrow> int \<Rightarrow> int \<Rightarrow> int list" where
  "offsets width height stride =
     concat (map (\<lambda>h. map (\<lambda>w. int h * stride + int w) [0..<nat width]) [0..<nat height])"

text \<open>
  The exact sum of the value samples co-located with key value \<open>v\<close>, and the exact number
  of those samples, as natural numbers.
\<close>

definition exact_sum :: "plane \<Rightarrow> plane \<Rightarrow> int \<Rightarrow> int \<Rightarrow> int \<Rightarrow> nat \<Rightarrow> nat" where
  "exact_sum ptr1 ptr2 width height stride v =
     sum_list (map (\<lambda>off. unat (ptr2 off))
                   (filter (\<lambda>off. unat (ptr1 off) = v) (offsets width height stride)))"

definition exact_count :: "plane \<Rightarrow> int \<Rightarrow> int \<Rightarrow> int \<Rightarrow> nat \<Rightarrow> nat" where
  "exact_count ptr1 width height stride v =
     length (filter (\<lambda>off. unat (ptr1 off) = v) (offsets width height stride))"

text \<open>A plane whose samples all have the value \<open>v\<close>.\<close>

definition flat_plane :: "8 word \<Rightarrow> plane" where
  "flat_plane v = (\<lambda>off. v)"

text \<open>
  The configuration errors listed by the specification, over the arguments of the
  filter. \<open>clip3\<close> stands for \<open>clip1\<close> when it is not given.
\<close>

definition clip3_info :: "CreateArgs \<Rightarrow> VSVideoInfo" where
  "clip3_info a = (case arg_clip3 a of None \<Rightarrow> arg_clip1 a | Some c \<Rightarrow> c)"

definition err_window :: "CreateArgs \<Rightarrow> bool" where
  "err_window a = (case arg_smoothing_window a of None \<Rightarrow> False | Some v \<Rightarrow> v < 0)"

definition err_mismatch :: "CreateArgs \<Rightarrow> bool" where
  "err_mismatch a =
     (vi_format (arg_clip1 a) \<noteq> vi_format (arg_clip2 a) \<or>
      vi_format (arg_clip1 a) \<noteq> vi_format (clip3_info a) \<or>
      vi_width (arg_clip1 a) \<noteq> vi_width (arg_clip2 a) \<or>
      vi_height (arg_clip1 a) \<noteq> vi_height (arg_clip2 a))"

definition err_variable :: "CreateArgs \<Rightarrow> bool" where
  "err_variable a =
     (vi_format (arg_clip1 a) = None \<or> vi_width (arg_clip1 a) = 0 \<or> vi_height (arg_clip1 a) = 0 \<or>
      vi_width (clip3_info a) = 0 \<or> vi_height (clip3_info a) = 0)"

definition err_depth :: "CreateArgs \<Rightarrow> bool" where
  "err_depth a =
     (case vi_format (arg_clip1 a) of None \<Rightarrow> False
      | Some fmt \<Rightarrow> colorFamily fmt = cmRGB \<or> bitsPerSample fmt > 8)"

definition err_planes :: "CreateArgs \<Rightarrow> bool" where
  "err_planes a =
     (case vi_format (arg_clip1 a) of None \<Rightarrow> False
      | Some fmt \<Rightarrow> list_ex (\<lambda>v. v < 0 \<or> v \<ge> numPlanes fmt) (arg_planes a)
                    \<or> \<not> distinct (arg_planes a))"

definition small_frames :: "CreateArgs \<Rightarrow> bool" where
  "small_frames a =
     (vi_width (arg_clip1 a) < 256 \<or> vi_height (arg_clip1 a) < 256 \<or>
      vi_width (clip3_info a) < 256 \<or> vi_height (clip3_info a) < 256)"

definition err_debug :: "CreateArgs \<Rightarrow> bool" where
  "err_debug a = (flag_of (arg_debug a) \<and> 1 < length (remdups (arg_planes a)))"

text \<open>
  The list as the specification words it: \<open>show\<close> requested with dimensions below
  256x256 is an error.
\<close>

definition listed_error :: "CreateArgs \<Rightarrow> bool" where
  "listed_error a =
     (err_window a \<or> err_mismatch a \<or> err_variable a \<or> err_depth a \<or> err_planes a \<or>
      (flag_of (arg_show a) \<and> small_frames a) \<or> err_debug a)"

text \<open>The list with the \<open>show\<close> entry limited to runs without \<open>debug\<close>.\<close>

definition config_error :: "CreateArgs \<Rightarrow> bool" where
  "config_error a =
     (err_window a \<or> err_mismatch a \<or> err_variable a \<or> err_depth a \<or> err_planes a \<or>
      (flag_of (arg_show a) \<and> \<not> flag_of (arg_debug a) \<and> small_frames a) \<or> err_debug a)"

definition error_messages :: "string list" where
  "error_messages = [msg_window, msg_format, msg_dimensions, msg_constant, msg_depth,
                     msg_range, msg_twice, msg_show, msg_debug]"

text \<open>
  Arguments for which the two lists differ: two 128x128 clips in an 8-bit YUV format,
  with \<open>show\<close> and \<open>debug\<close> both requested; and the same with \<open>show\<close> alone.
\<close>

definition yuv444p8 :: VSFormat where
  "yuv444p8 = \<lparr>colorFamily = cmYUV, bitsPerSample = 8, numPlanes = 3,
               subSamplingW = 0, subSamplingH = 0\<rparr>"

definition small_clip :: VSVideoInfo where
  "small_clip = \<lparr>vi_format = Some yuv444p8, vi_width = 128, vi_height = 128\<rparr>"

definition show_debug_args :: CreateArgs where
  "show_debug_args =
     \<lparr>arg_clip1 = small_clip, arg_clip2 = small_clip, arg_clip3 = None, arg_raw = None,
      arg_show = Some 1, arg_debug = Some 1, arg_smoothing_window = None, arg_planes = []\<rparr>"

definition show_args :: CreateArgs where
  "show_args = show_debug_args\<lparr>arg_debug := None\<rparr>"

text \<open>
  The state of the arrays between the stages of \<open>Create\<close>: all three have 256 entries;
  every defined slot of \<open>curve\<close> holds the rounded quotient of its \<open>sum\<close> and \<open>div\<close>; the
  defined indices are exactly those from \<open>a\<close> to \<open>b\<close>.
\<close>

definition wf_data :: "CurveData \<Rightarrow> bool" where
  "wf_data cd \<longleftrightarrow>
     length (sum_arr cd) = 256 \<and> length (div_arr cd) = 256 \<and> length (curve cd) = 256"

definition consistent :: "CurveData \<Rightarrow> bool" where
  "consistent cd \<longleftrightarrow> (\<forall>i<256. div_arr cd ! i \<noteq> 0 \<longrightarrow> curve cd ! i = mean_at cd i)"

definition all_defined :: "CurveData \<Rightarrow> bool" where
  "all_defined cd \<longleftrightarrow> (\<forall>i<256. div_arr cd ! i \<noteq> 0)"

definition span :: "32 word list \<Rightarrow> nat \<Rightarrow> nat \<Rightarrow> bool" where
  "span d a b \<longleftrightarrow> a \<le> b \<and> b < 256 \<and> (\<forall>j<256. d ! j \<noteq> 0 \<longleftrightarrow> a \<le> j \<and> j \<le> b)"

text \<open>The exact sum of all value samples of a plane, and its number of pixels.\<close>

definition total_sum :: "plane \<Rightarrow> int \<Rightarrow> int \<Rightarrow> int \<Rightarrow> nat" where
  "total_sum ptr2 width height stride =
     sum_list (map (\<lambda>off. unat (ptr2 off)) (offsets width height stride))"

definition pixel_count :: "int \<Rightarrow> int \<Rightarrow> nat" where
  "pixel_count width height = nat width * nat height"

text \<open>A plane with the value \<open>u\<close> at the offsets below \<open>t\<close> and \<open>v\<close> from there on.\<close>

definition step_plane :: "int \<Rightarrow> 8 word \<Rightarrow> 8 word \<Rightarrow> plane" where
  "step_plane t u v = (\<lambda>off. if off < t then u else v)"

section \<open>Rounding division\<close>

lemma int32_id: "- 2147483648 \<le> v \<Longrightarrow> v < 2147483648 \<Longrightarrow> int32 v = v"
  by (simp add: int32_def)

lemma sdiv_pos_pos: "0 \<le> a \<Longrightarrow> 0 < b \<Longrightarrow> (a::int) sdiv b = a div b"
  by (cases "a = 0") (simp_all add: signed_divide_int_def)

lemma sdiv_neg_pos: "a < 0 \<Longrightarrow> 0 < b \<Longrightarrow> (a::int) sdiv b = - ((- a) div b)"
  by (simp add: signed_divide_int_def)

lemma int_div_le_self: "0 \<le> a \<Longrightarrow> 0 < b \<Longrightarrow> (a::int) div b \<le> a"
  using zdiv_mono2 [of a 1 b] by simp

lemma IntDiv_nonneg:
  assumes "0 \<le> x" "0 < y" "x + y div 2 < 2147483648"
  shows "IntDiv x y = (x + y div 2) div y"
proof -
  have h: "0 \<le> y div 2" using assms by simp
  have "0 \<le> (x + y div 2) div y" using assms h by (simp add: pos_imp_zdiv_nonneg_iff)
  moreover have "(x + y div 2) div y \<le> x + y div 2"
    using assms h by (simp add: int_div_le_self)
  ultimately show ?thesis using assms h
    by (simp add: IntDiv_def int32_id sdiv_pos_pos)
qed

lemma IntDiv_neg:
  assumes "x < 0" "0 < y" "- 2147483648 \<le> x - y div 2"
  shows "IntDiv x y = - ((y div 2 - x) div y)"
proof -
  have h: "0 \<le> y div 2" using assms by simp
  have a: "0 \<le> (y div 2 - x) div y" using assms h by (simp add: pos_imp_zdiv_nonneg_iff)
  have b: "(y div 2 - x) div y \<le> y div 2 - x"
    using assms h by (simp add: int_div_le_self)
  show ?thesis using assms h a b
    by (simp add: IntDiv_def int32_id sdiv_neg_pos)
qed

lemma nearest_away_div:
  assumes "0 \<le> n" "0 < y"
  shows "nearest_away n y ((n + y div 2) div y)"
proof -
  define q where "q = (n + y div 2) div y"
  define r where "r = (n + y div 2) mod y"
  define h where "h = y div 2"
  define m where "m = y mod 2"
  define qy where "qy = q * y"
  have 1: "n + h = qy + r" unfolding q_def r_def h_def qy_def by simp
  have 2: "0 \<le> r" "r < y" unfolding r_def using assms by simp_all
  have 3: "y = 2 * h + m" "0 \<le> m" "m \<le> 1" unfolding h_def m_def by auto
  have a: "2 * \<bar>n - qy\<bar> \<le> \<bar>y\<bar>"
    using 1 2 3 assms by arith
  have b: "\<bar>n\<bar> < \<bar>qy\<bar>" if tie: "2 * \<bar>n - qy\<bar> = \<bar>y\<bar>"
  proof -
    have d: "n - qy = r - h" using 1 by simp
    have "2 * \<bar>r - h\<bar> \<noteq> 2 * h + 1" by presburger
    then have m0: "m = 0" using tie d 3 assms by (cases "m = 0") auto
    have "r - h < h" using 2 3 m0 by simp
    then have "r - h = - h" using tie d 3 m0 assms by (simp add: abs_if split: if_splits)
    then have "qy = n + h" "0 < h" using 1 3 m0 assms by simp_all
    then show ?thesis using assms by simp
  qed
  from a b
  have "2 * \<bar>n - qy\<bar> \<le> \<bar>y\<bar> \<and> (2 * \<bar>n - qy\<bar> = \<bar>y\<bar> \<longrightarrow> \<bar>n\<bar> < \<bar>qy\<bar>)"
    by blast
  then show ?thesis unfolding nearest_away_def qy_def q_def by simp
qed

lemma nearest_away_neg: "nearest_away x y q \<Longrightarrow> nearest_away (- x) y (- q)"
  unfolding nearest_away_def
  by (metis (no_types, opaque_lifting) abs_minus_commute minus_diff_eq mult_minus_left
      abs_minus_cancel uminus_add_conv_diff add.inverse_inverse diff_minus_eq_add)

text \<open>
  C6 (as amended). For every \<open>int\<close> \<open>x\<close> and every \<open>int\<close> \<open>y > 0\<close> for which the intermediate
  value of the source, \<open>x + (y >> 1)\<close> for \<open>x \<ge> 0\<close> and \<open>x - (y >> 1)\<close> for \<open>x < 0\<close>, is in the
  range of \<open>int\<close>, \<open>IntDiv(x, y)\<close> is the integer nearest to \<open>x / y\<close>, with ties rounded away
  from zero.
\<close>

theorem IntDiv_nearest:
  assumes "0 < y"
    and "- 2147483648 \<le> (if x < 0 then x - y div 2 else x + y div 2)"
    and "(if x < 0 then x - y div 2 else x + y div 2) \<le> 2147483647"
  shows "nearest_away x y (IntDiv x y)"
proof (cases "x < 0")
  case False
  then show ?thesis using assms nearest_away_div [of x y] by (simp add: IntDiv_nonneg)
next
  case True
  then have "IntDiv x y = - ((- x + y div 2) div y)" using assms by (simp add: IntDiv_neg)
  then show ?thesis
    using True assms nearest_away_neg [OF nearest_away_div [of "- x" y]] by simp
qed

theorem IntDiv_nearest_witness:
  "(0::int) < 2 \<and> (- 2147483648::int) \<le> 5 + 2 div 2 \<and> (5::int) + 2 div 2 \<le> 2147483647
   \<and> nearest_away 5 2 (IntDiv 5 2) \<and> IntDiv 5 2 = 3"
proof -
  have "nearest_away 5 2 (IntDiv 5 2)"
    by (rule IntDiv_nearest) simp_all
  moreover have "IntDiv 5 2 = 3"
    by (simp add: IntDiv_nonneg)
  ultimately show ?thesis by simp
qed

text \<open>
  C6 as stated fails where the addition leaves the range of \<open>int\<close>: for
  \<open>x = 2147483647\<close> and \<open>y = 2\<close> the sum \<open>x + 1\<close> wraps and the result is negative.
\<close>

theorem IntDiv_nearest_counterexample:
  "\<not> nearest_away 2147483647 2 (IntDiv 2147483647 2)"
  by (simp add: nearest_away_def IntDiv_def int32_def signed_divide_int_def)

section \<open>Raw mode\<close>

text \<open>
  C10. With \<open>raw = true\<close>, \<open>Create\<close> returns, and the \<open>curve\<close>, \<open>sum\<close> and \<open>div\<close> arrays it
  leaves are the same for any two smoothing windows.
\<close>

theorem Create_raw_window_independent:
  "\<exists>cd. Create ptr1 ptr2 width height stride True w1 = Some cd
      \<and> Create ptr1 ptr2 width height stride True w2 = Some cd"
  by (simp add: Create_def)

section \<open>The diagnostic drawing\<close>

lemma write_loop:
  "fold (\<lambda>j p. p(F j := v)) js (p :: plane) k = (if k \<in> F ` set js then v else p k)"
  by (induction js arbitrary: p) auto

lemma write_loops_miss:
  "(\<And>i j. i \<in> set cols \<Longrightarrow> j \<in> set (js i) \<Longrightarrow> F i j \<noteq> k) \<Longrightarrow>
   fold (\<lambda>i. fold (\<lambda>j p. p(F i j := v i)) (js i)) cols (p :: plane) k = p k"
proof (induction cols arbitrary: p)
  case Nil
  then show ?case by simp
next
  case (Cons c cols)
  have "k \<notin> F c ` set (js c)" using Cons.prems by auto
  then show ?case using Cons by (simp del: fun_upd_apply add: write_loop)
qed

lemma mark_loop_miss:
  "(\<And>i. i \<in> set cols \<Longrightarrow> G i \<noteq> k) \<Longrightarrow>
   fold (\<lambda>i p. if C i then p(G i := v) else p) cols (p :: plane) k = p k"
  by (induction cols arbitrary: p) auto

lemma offset_inj:
  assumes "256 \<le> (s::int)" "0 \<le> i" "i < 256" "0 \<le> x" "x < 256" "a * s + i = b * s + x"
  shows "a = b \<and> i = x"
proof -
  have "(i + a * s) div s = a" "(x + b * s) div s = b" using assms by simp_all
  then have "a = b" using assms(6) by (simp add: add.commute)
  then show ?thesis using assms(6) by simp
qed

lemma upt_split3: "x < n \<Longrightarrow> [0..<n] = [0..<x] @ x # [Suc x..<n]"
  by (metis less_imp_add_positive upt_add_eq_append upt_conv_Cons zero_le less_eq_nat.simps(1) le_add1 add.commute less_add_same_cancel2)

lemma Debug_pixel:
  assumes s: "256 \<le> stride" and x: "x < 256" and r: "0 \<le> r" "r \<le> 255"
  shows "Debug cd ptr stride (r * stride + int x) =
           (if 0 < curve cd ! x \<and> r = 255 - uint (curve cd ! x) then 255
            else if 255 - uint (curve cd ! x) \<le> r then curve cd ! x
            else ptr (r * stride + int x))"
proof -
  define k where "k = r * stride + int x"
  define F where "F = (\<lambda>i j. (255 - int j) * stride + int i)"
  define js where "js = (\<lambda>i. [0..<Suc (unat (curve cd ! i))])"
  define G where "G = (\<lambda>i. (255 - uint (curve cd ! i)) * stride + int i)"
  define bars where "bars = fold (\<lambda>i. fold (\<lambda>j p. p(F i j := curve cd ! i)) (js i)) [0..<256] ptr"
  have split: "[0..<256] = [0..<x] @ x # [Suc x..<256]" using x by (rule upt_split3)
  have missF: "F i j \<noteq> k" if "i < 256" "i \<noteq> x" for i j
    using offset_inj [of stride "int i" "int x" "255 - int j" r] that s x
    by (auto simp: F_def k_def)
  have missG: "G i \<noteq> k" if "i < 256" "i \<noteq> x" for i
    using offset_inj [of stride "int i" "int x" "255 - uint (curve cd ! i)" r] that s x
    by (auto simp: G_def k_def)
  have un: "uint (curve cd ! x) = int (unat (curve cd ! x))" by (rule uint_nat)
  have hitF: "k \<in> F x ` set (js x) \<longleftrightarrow> 255 - uint (curve cd ! x) \<le> r"
  proof
    assume "k \<in> F x ` set (js x)"
    then obtain j where "j \<in> set (js x)" "F x j = k" by auto
    then have j: "j \<le> unat (curve cd ! x)" "F x j = k" by (auto simp: js_def)
    then have "255 - int j = r"
      using offset_inj [of stride "int x" "int x" "255 - int j" r] s x by (simp add: F_def k_def)
    then show "255 - uint (curve cd ! x) \<le> r" using j(1) un by linarith
  next
    assume a: "255 - uint (curve cd ! x) \<le> r"
    then have "nat (255 - r) \<le> unat (curve cd ! x)" using r un by linarith
    moreover have "F x (nat (255 - r)) = k" using r by (simp add: F_def k_def)
    ultimately have "nat (255 - r) \<in> set (js x)" "F x (nat (255 - r)) = k"
      by (auto simp: js_def)
    then show "k \<in> F x ` set (js x)" by (metis imageI)
  qed
  have hitG: "G x = k \<longleftrightarrow> r = 255 - uint (curve cd ! x)"
    using offset_inj [of stride "int x" "int x" "255 - uint (curve cd ! x)" r] s x
    by (auto simp: G_def k_def)
  have bars: "bars k = (if 255 - uint (curve cd ! x) \<le> r then curve cd ! x else ptr k)"
  proof -
    have 1: "fold (\<lambda>i. fold (\<lambda>j p. p(F i j := curve cd ! i)) (js i)) [0..<x] ptr k = ptr k"
      using x by (intro write_loops_miss missF) auto
    have 2: "fold (\<lambda>i. fold (\<lambda>j p. p(F i j := curve cd ! i)) (js i)) [Suc x..<256] q k = q k" for q
      by (intro write_loops_miss missF) auto
    show ?thesis unfolding bars_def
      by (subst split) (simp del: fun_upd_apply add: 1 2 write_loop hitF)
  qed
  have "Debug cd ptr stride =
        fold (\<lambda>i p. if curve cd ! i > 0 then p(G i := 255) else p) [0..<256] bars"
    unfolding Debug_def Let_def bars_def F_def js_def G_def ..
  moreover have "fold (\<lambda>i p. if curve cd ! i > 0 then p(G i := 255) else p) [0..<256] bars k =
     (if 0 < curve cd ! x \<and> G x = k then 255 else bars k)"
  proof -
    have 1: "fold (\<lambda>i p. if curve cd ! i > 0 then p(G i := 255) else p) [0..<x] bars k = bars k"
      using x by (intro mark_loop_miss missG) auto
    have 2: "fold (\<lambda>i p. if curve cd ! i > 0 then p(G i := 255) else p) [Suc x..<256] q k = q k"
      for q :: plane
      by (intro mark_loop_miss missG) auto
    show ?thesis by (subst split) (simp del: fun_upd_apply add: 1 2, simp add: 1)
  qed
  ultimately show ?thesis using bars hitG by (simp add: k_def)
qed


text \<open>
  C5 (as amended). For a plane at least 256 samples wide and every column \<open>x\<close> in 0..255,
  \<open>Debug\<close> leaves the grey level \<open>curve[x]\<close> in rows 255 down to \<open>256 - curve[x]\<close> of
  column \<open>x\<close>; the pixel at row \<open>255 - curve[x]\<close> is 255 when \<open>curve[x] > 0\<close> and stays at
  grey level 0 when \<open>curve[x] = 0\<close>; the rows above are not written.
\<close>

theorem Debug_column:
  assumes "256 \<le> stride" and "x < 256"
  shows "(\<forall>r. 255 - uint (curve cd ! x) < r \<and> r \<le> 255 \<longrightarrow>
             Debug cd ptr stride (r * stride + int x) = curve cd ! x) \<and>
         Debug cd ptr stride ((255 - uint (curve cd ! x)) * stride + int x) =
           (if 0 < curve cd ! x then 255 else 0) \<and>
         (\<forall>r. 0 \<le> r \<and> r < 255 - uint (curve cd ! x) \<longrightarrow>
             Debug cd ptr stride (r * stride + int x) = ptr (r * stride + int x))"
proof -
  have c: "0 \<le> uint (curve cd ! x)" "uint (curve cd ! x) \<le> 255"
    using uint_bounded [of "curve cd ! x"] by simp_all
  have z: "curve cd ! x = 0" if "\<not> 0 < curve cd ! x"
    using that by (simp add: word_gt_0)
  have 1: "Debug cd ptr stride (r * stride + int x) = curve cd ! x"
    if "255 - uint (curve cd ! x) < r" "r \<le> 255" for r
    using that c Debug_pixel [OF assms, of r cd ptr] by simp
  have 2: "Debug cd ptr stride ((255 - uint (curve cd ! x)) * stride + int x) =
           (if 0 < curve cd ! x then 255 else 0)"
    using c z Debug_pixel [OF assms, of "255 - uint (curve cd ! x)" cd ptr] by auto
  have 3: "Debug cd ptr stride (r * stride + int x) = ptr (r * stride + int x)"
    if "0 \<le> r" "r < 255 - uint (curve cd ! x)" for r
  proof -
    have "r \<le> 255" using that c by linarith
    then show ?thesis using that Debug_pixel [OF assms, of r cd ptr] by simp
  qed
  show ?thesis using 1 2 3 by blast
qed

theorem Debug_column_witness:
  "(256::int) \<le> 256 \<and> (100::nat) < 256 \<and>
   Debug (clear_data\<lparr>curve := (replicate 256 0)[100 := 50]\<rparr>) (flat_plane 16) 256 (255 * 256 + 100) = 50 \<and>
   Debug (clear_data\<lparr>curve := (replicate 256 0)[100 := 50]\<rparr>) (flat_plane 16) 256 (206 * 256 + 100) = 50 \<and>
   Debug (clear_data\<lparr>curve := (replicate 256 0)[100 := 50]\<rparr>) (flat_plane 16) 256 (205 * 256 + 100) = 255 \<and>
   Debug (clear_data\<lparr>curve := (replicate 256 0)[100 := 50]\<rparr>) (flat_plane 16) 256 (204 * 256 + 100) = 16"
proof -
  define cd where "cd = clear_data\<lparr>curve := (replicate 256 0)[100 := 50]\<rparr>"
  have c: "curve cd ! 100 = 50" by (simp add: cd_def)
  have u: "uint (50 :: 8 word) = 50" by simp
  note col = Debug_column [of 256 100 cd "flat_plane 16", unfolded c u]
  have "Debug cd (flat_plane 16) 256 (255 * 256 + int 100) = 50"
    using col [THEN conjunct1, THEN spec, of 255] by simp
  moreover have "Debug cd (flat_plane 16) 256 (206 * 256 + int 100) = 50"
    using col [THEN conjunct1, THEN spec, of 206] by simp
  moreover have "Debug cd (flat_plane 16) 256 ((255 - 50) * 256 + int 100) = 255"
    using col [THEN conjunct2, THEN conjunct1] by simp
  moreover have "Debug cd (flat_plane 16) 256 (204 * 256 + int 100) = 16"
    using col [THEN conjunct2, THEN conjunct2, THEN spec, of 204] by (simp add: flat_plane_def)
  ultimately show ?thesis unfolding cd_def by simp
qed

text \<open>
  C5 as stated fails for a column with \<open>curve[x] = 0\<close>: the second loop skips it, and
  the pixel at row \<open>255 - curve[x] = 255\<close> holds 0, not 255.
\<close>

theorem Debug_trace_counterexample:
  "Debug clear_data (flat_plane 16) 256 ((255 - uint (curve clear_data ! 0)) * 256 + 0) = 0"
proof -
  have c: "curve clear_data ! 0 = 0" by (simp add: clear_data_def)
  show ?thesis using Debug_pixel [of 256 0 255 clear_data "flat_plane 16"] c by simp
qed

section \<open>Configuration errors\<close>

lemma int64ToIntS_range:
  "n \<le> 3 \<Longrightarrow> (int64ToIntS v < 0 \<or> int64ToIntS v \<ge> n) \<longleftrightarrow> (v < 0 \<or> v \<ge> n)"
  by (auto simp: int64ToIntS_def)

lemma int64ToIntS_id: "0 \<le> v \<Longrightarrow> v < 3 \<Longrightarrow> int64ToIntS v = v"
  by (simp add: int64ToIntS_def)

lemma sum3_update:
  assumes "length (p :: int list) = 3" "k < 3" "p ! k = 0"
  shows "p[k := 1] ! 0 + p[k := 1] ! 1 + p[k := 1] ! 2 = p ! 0 + p ! 1 + p ! 2 + 1"
proof -
  from assms(2) consider "k = 0" | "k = 1" | "k = 2" by linarith
  then show ?thesis using assms(1,3) by cases simp_all
qed

lemma mark_planes_Inr:
  assumes "length p = 3" "n \<le> 3" "mark_planes n vs p = Inr p'"
  shows "\<not> list_ex (\<lambda>v. v < 0 \<or> v \<ge> n) vs \<and> distinct vs \<and> (\<forall>v\<in>set vs. p ! nat v = 0) \<and>
         length p' = 3 \<and> p' ! 0 + p' ! 1 + p' ! 2 = p ! 0 + p ! 1 + p ! 2 + int (length vs)"
  using assms
proof (induction vs arbitrary: p)
  case Nil
  then show ?case by simp
next
  case (Cons v vs)
  have rng: "0 \<le> v" "v < n" using Cons.prems int64ToIntS_range [of n v]
    by (auto simp: Let_def split: if_splits)
  then have idx: "int64ToIntS v = v" using Cons.prems(2) by (simp add: int64ToIntS_id)
  have zero: "p ! nat v = 0" and rec: "mark_planes n vs (p[nat v := 1]) = Inr p'"
    using Cons.prems(3) rng idx by (auto simp: Let_def split: if_splits)
  have k: "nat v < 3" using rng Cons.prems(2) by linarith
  from Cons.IH [OF _ Cons.prems(2) rec] Cons.prems(1)
  have IH: "\<not> list_ex (\<lambda>v. v < 0 \<or> v \<ge> n) vs" "distinct vs"
    "\<forall>w\<in>set vs. p[nat v := 1] ! nat w = 0" "length p' = 3"
    "p' ! 0 + p' ! 1 + p' ! 2 =
       p[nat v := 1] ! 0 + p[nat v := 1] ! 1 + p[nat v := 1] ! 2 + int (length vs)"
    by simp_all
  have notin: "v \<notin> set vs"
  proof
    assume "v \<in> set vs"
    then have "p[nat v := 1] ! nat v = 0" using IH(3) by blast
    then show False using k Cons.prems(1) by simp
  qed
  have others: "p ! nat w = 0" if "w \<in> set vs" for w
  proof -
    have "w \<noteq> v" using that notin by blast
    moreover have "0 \<le> w" using IH(1) that by (auto simp: list_ex_iff)
    ultimately have "nat w \<noteq> nat v" using rng by simp
    then show ?thesis using IH(3) that by (metis nth_list_update_neq)
  qed
  show ?case
    using rng IH(1,2,4,5) notin zero others sum3_update [OF Cons.prems(1) k zero] by simp
qed

lemma mark_planes_Inl:
  assumes "length p = 3" "n \<le> 3" "mark_planes n vs p = Inl e"
  shows "(e = msg_range \<and> list_ex (\<lambda>v. v < 0 \<or> v \<ge> n) vs) \<or>
         (e = msg_twice \<and> (\<not> distinct vs \<or> (\<exists>v\<in>set vs. 0 \<le> v \<and> v < 3 \<and> p ! nat v \<noteq> 0)))"
  using assms
proof (induction vs arbitrary: p)
  case Nil
  then show ?case by simp
next
  case (Cons v vs)
  show ?case
  proof (cases "v < 0 \<or> v \<ge> n")
    case True
    then have "int64ToIntS v < 0 \<or> int64ToIntS v \<ge> n"
      using int64ToIntS_range [of n v] Cons.prems(2) by simp
    then have "e = msg_range" using Cons.prems(3) by (auto simp: Let_def)
    then show ?thesis using True by simp
  next
    case False
    then have rng: "0 \<le> v" "v < 3" using Cons.prems(2) by simp_all
    then have idx: "int64ToIntS v = v" by (simp add: int64ToIntS_id)
    show ?thesis
    proof (cases "p ! nat v \<noteq> 0")
      case True
      then have "e = msg_twice" using Cons.prems(3) False idx by (auto simp: Let_def)
      then show ?thesis using True rng by auto
    next
      case z: False
      then have rec: "mark_planes n vs (p[nat v := 1]) = Inl e"
        using Cons.prems(3) False idx by (auto simp: Let_def)
      from Cons.IH [OF _ Cons.prems(2) rec] Cons.prems(1)
      consider "e = msg_range" "list_ex (\<lambda>v. v < 0 \<or> v \<ge> n) vs"
        | "e = msg_twice" "\<not> distinct vs"
        | w where "e = msg_twice" "w \<in> set vs" "0 \<le> w" "w < 3" "p[nat v := 1] ! nat w \<noteq> 0"
        by auto
      then show ?thesis
      proof cases
        case 1 then show ?thesis by simp
      next
        case 2 then show ?thesis by simp
      next
        case 3
        show ?thesis
        proof (cases "w = v")
          case True
          then show ?thesis using 3 by auto
        next
          case False
          then have "nat w \<noteq> nat v" using 3(3) rng by simp
          then have "p ! nat w \<noteq> 0" using 3(5) by simp
          then show ?thesis using 3 by auto
        qed
      qed
    qed
  qed
qed


lemma zeros3: "k < 3 \<Longrightarrow> [0, 0, 0 :: int] ! k = 0"
  by (cases k rule: nat.exhaust; simp add: nth_Cons split: nat.splits)

lemma distinct_messages: "distinct error_messages"
  by (simp add: error_messages_def msg_window_def msg_format_def msg_dimensions_def
      msg_constant_def msg_depth_def msg_range_def msg_twice_def msg_show_def msg_debug_def)

lemma window_negative:
  "(case arg_smoothing_window a of None \<Rightarrow> 8 | Some v \<Rightarrow> int64ToIntS v) < 0 \<longleftrightarrow> err_window a"
  by (auto simp: err_window_def int64ToIntS_def split: option.splits)


lemma marked_none:
  assumes "0 \<le> v" "v < 3" "v \<in> set (arg_planes a)"
  shows "initial_process a ! nat v = 0"
proof -
  have "arg_planes a \<noteq> []" using assms(3) by auto
  moreover have "nat v < 3" using assms by linarith
  ultimately show ?thesis by (simp add: initial_process_def zeros3)
qed

lemma planes_failure:
  assumes "vi_format (arg_clip1 a) = Some fmt" "numPlanes fmt \<le> 3"
    and "mark_planes (numPlanes fmt) (arg_planes a) (initial_process a) = Inl e"
  shows "(e = msg_range \<or> e = msg_twice) \<and> err_planes a"
proof -
  have len: "length (initial_process a) = 3" by (simp add: initial_process_def)
  from mark_planes_Inl [OF len assms(2,3)] marked_none [of _ a]
  show ?thesis using assms(1) by (auto simp: err_planes_def)
qed

lemma planes_success:
  assumes "vi_format (arg_clip1 a) = Some fmt" "numPlanes fmt \<le> 3"
    and "mark_planes (numPlanes fmt) (arg_planes a) (initial_process a) = Inr p"
  shows "\<not> err_planes a \<and> (1 < p ! 0 + p ! 1 + p ! 2 \<longleftrightarrow> 1 < length (remdups (arg_planes a)))"
proof -
  have len: "length (initial_process a) = 3" by (simp add: initial_process_def)
  from mark_planes_Inr [OF len assms(2,3)]
  have 1: "\<not> list_ex (\<lambda>v. v < 0 \<or> v \<ge> numPlanes fmt) (arg_planes a)" "distinct (arg_planes a)"
    and 2: "p ! 0 + p ! 1 + p ! 2 = initial_process a ! 0 + initial_process a ! 1 +
              initial_process a ! 2 + int (length (arg_planes a))"
    by simp_all
  have 3: "remdups (arg_planes a) = arg_planes a" using 1(2) by (rule distinct_remdups_id)
  have 4: "1 < p ! 0 + p ! 1 + p ! 2 \<longleftrightarrow> 1 < length (arg_planes a)"
    using 2 by (cases "arg_planes a") (simp_all add: initial_process_def)
  have "\<not> err_planes a" using 1 assms(1) by (simp add: err_planes_def)
  then show ?thesis using 4 by (simp only: 3 simp_thms)
qed


lemma failure_cause:
  assumes "case vi_format (arg_clip1 a) of None \<Rightarrow> True | Some fmt \<Rightarrow> numPlanes fmt \<le> 3"
    and "MatchHistogramCreate a = Inl msg"
  shows "(msg = msg_window \<and> err_window a) \<or>
         ((msg = msg_format \<or> msg = msg_dimensions) \<and> err_mismatch a) \<or>
         (msg = msg_constant \<and> err_variable a) \<or>
         (msg = msg_depth \<and> err_depth a) \<or>
         ((msg = msg_range \<or> msg = msg_twice) \<and> err_planes a) \<or>
         (msg = msg_show \<and> flag_of (arg_show a) \<and> \<not> flag_of (arg_debug a) \<and> small_frames a) \<or>
         (msg = msg_debug \<and> err_debug a)"
proof (cases "err_window a")
  case True
  then show ?thesis using assms(2)
    by (simp add: MatchHistogramCreate_def Let_def window_negative)
next
  case w: False
  show ?thesis
  proof (cases "err_mismatch a")
    case True
    then show ?thesis using assms(2) w
      by (auto simp: MatchHistogramCreate_def Let_def window_negative err_mismatch_def
          clip3_info_def split: if_splits)
  next
    case m: False
    show ?thesis
    proof (cases "err_variable a")
      case True
      then show ?thesis using assms(2) w m
        by (auto simp: MatchHistogramCreate_def Let_def window_negative err_mismatch_def
            err_variable_def clip3_info_def split: if_splits option.splits)
    next
      case v: False
      then obtain fmt where fmt: "vi_format (arg_clip1 a) = Some fmt"
        by (auto simp: err_variable_def)
      have np: "numPlanes fmt \<le> 3" using assms(1) fmt by simp
      show ?thesis
      proof (cases "err_depth a")
        case True
        then show ?thesis using assms(2) w m v fmt
          by (auto simp: MatchHistogramCreate_def Let_def window_negative err_mismatch_def
              err_variable_def err_depth_def clip3_info_def split: if_splits)
      next
        case d: False
        show ?thesis
        proof (cases "mark_planes (numPlanes fmt) (arg_planes a) (initial_process a)")
          case (Inl e)
          then have "msg = e" using assms(2) w m v d fmt
            by (auto simp: MatchHistogramCreate_def Let_def window_negative err_mismatch_def
              err_variable_def err_depth_def clip3_info_def split: if_splits)
          then show ?thesis using planes_failure [OF fmt np Inl] by auto
        next
          case (Inr p)
          then have "(msg = msg_show \<and> flag_of (arg_show a) \<and> \<not> flag_of (arg_debug a) \<and> small_frames a)
             \<or> (msg = msg_debug \<and> flag_of (arg_debug a) \<and> 1 < p ! 0 + p ! 1 + p ! 2)"
            using assms(2) w m v d fmt
            by (auto simp: MatchHistogramCreate_def Let_def window_negative err_mismatch_def
              err_variable_def err_depth_def clip3_info_def small_frames_def split: if_splits)
          then show ?thesis using planes_success [OF fmt np Inr] by (auto simp: err_debug_def)
        qed
      qed
    qed
  qed
qed

lemma success_clean:
  assumes "case vi_format (arg_clip1 a) of None \<Rightarrow> True | Some fmt \<Rightarrow> numPlanes fmt \<le> 3"
    and "MatchHistogramCreate a = Inr d"
  shows "\<not> config_error a"
proof -
  have w: "\<not> err_window a" using assms(2)
    by (auto simp: MatchHistogramCreate_def Let_def window_negative)
  have m: "\<not> err_mismatch a" using assms(2) w
    by (auto simp: MatchHistogramCreate_def Let_def window_negative err_mismatch_def
        clip3_info_def split: if_splits)
  have v: "\<not> err_variable a" using assms(2) w m
    by (auto simp: MatchHistogramCreate_def Let_def window_negative err_mismatch_def
        err_variable_def clip3_info_def split: if_splits option.splits)
  then obtain fmt where fmt: "vi_format (arg_clip1 a) = Some fmt"
    by (auto simp: err_variable_def)
  have np: "numPlanes fmt \<le> 3" using assms(1) fmt by simp
  have d: "\<not> err_depth a" using assms(2) w m v fmt
    by (auto simp: MatchHistogramCreate_def Let_def window_negative err_mismatch_def
        err_variable_def err_depth_def clip3_info_def split: if_splits)
  obtain p where p: "mark_planes (numPlanes fmt) (arg_planes a) (initial_process a) = Inr p"
    using assms(2) w m v d fmt
    by (cases "mark_planes (numPlanes fmt) (arg_planes a) (initial_process a)")
       (auto simp: MatchHistogramCreate_def Let_def window_negative err_mismatch_def
        err_variable_def err_depth_def clip3_info_def split: if_splits)
  have "\<not> (flag_of (arg_show a) \<and> \<not> flag_of (arg_debug a) \<and> small_frames a)"
       "\<not> (flag_of (arg_debug a) \<and> 1 < p ! 0 + p ! 1 + p ! 2)"
    using assms(2) w m v d fmt p
    by (auto simp: MatchHistogramCreate_def Let_def window_negative err_mismatch_def
        err_variable_def err_depth_def clip3_info_def small_frames_def split: if_splits)
  then show ?thesis using w m v d planes_success [OF fmt np p]
    by (auto simp: config_error_def err_debug_def)
qed


text \<open>
  C9 (as amended). For a format of at most three planes, construction fails if and only
  if one of these holds: negative \<open>smoothing_window\<close>; the three clips differ in format or
  the first two in dimensions; variable format or dimensions; RGB or more than 8 bits per
  sample; a plane index out of range or given twice; \<open>show\<close> requested without \<open>debug\<close>
  and a clip below 256x256; \<open>debug\<close> with more than one plane. Every failure carries the
  message of a cause that holds, the messages are pairwise distinct, and otherwise the
  instance data is returned.
\<close>

theorem MatchHistogramCreate_config_errors:
  assumes "case vi_format (arg_clip1 a) of None \<Rightarrow> True | Some fmt \<Rightarrow> numPlanes fmt \<le> 3"
  shows "((\<exists>msg. MatchHistogramCreate a = Inl msg) \<longleftrightarrow> config_error a) \<and>
         (\<forall>msg. MatchHistogramCreate a = Inl msg \<longrightarrow>
            (msg = msg_window \<and> err_window a) \<or>
            ((msg = msg_format \<or> msg = msg_dimensions) \<and> err_mismatch a) \<or>
            (msg = msg_constant \<and> err_variable a) \<or>
            (msg = msg_depth \<and> err_depth a) \<or>
            ((msg = msg_range \<or> msg = msg_twice) \<and> err_planes a) \<or>
            (msg = msg_show \<and> flag_of (arg_show a) \<and> \<not> flag_of (arg_debug a) \<and> small_frames a) \<or>
            (msg = msg_debug \<and> err_debug a)) \<and>
         distinct error_messages"
proof -
  have fwd: "config_error a" if "MatchHistogramCreate a = Inl msg" for msg
    using failure_cause [OF assms that] by (auto simp: config_error_def)
  have bwd: "\<exists>msg. MatchHistogramCreate a = Inl msg" if "config_error a"
  proof (cases "MatchHistogramCreate a")
    case (Inl msg)
    then show ?thesis by blast
  next
    case (Inr d)
    then show ?thesis using success_clean [OF assms Inr] that by simp
  qed
  show ?thesis using fwd bwd failure_cause [OF assms] distinct_messages by blast
qed

theorem MatchHistogramCreate_config_errors_witness:
  "numPlanes yuv444p8 \<le> 3 \<and> config_error show_args \<and>
   MatchHistogramCreate show_args = Inl msg_show"
proof -
  have fmt: "vi_format (arg_clip1 show_args) = Some yuv444p8"
    by (simp add: show_args_def show_debug_args_def small_clip_def)
  have np: "numPlanes yuv444p8 \<le> 3" by (simp add: yuv444p8_def)
  have ce: "config_error show_args"
    by (simp add: config_error_def small_frames_def flag_of_def show_args_def
        show_debug_args_def small_clip_def clip3_info_def)
  have nw: "\<not> err_window show_args" "\<not> err_mismatch show_args" "\<not> err_variable show_args"
    "\<not> err_depth show_args" "\<not> err_planes show_args" "\<not> err_debug show_args"
    by (simp_all add: err_window_def err_mismatch_def err_variable_def err_depth_def
        err_planes_def err_debug_def flag_of_def show_args_def show_debug_args_def
        small_clip_def clip3_info_def yuv444p8_def)
  from MatchHistogramCreate_config_errors [of show_args] fmt np ce
  obtain msg where m: "MatchHistogramCreate show_args = Inl msg" by auto
  with MatchHistogramCreate_config_errors [of show_args] fmt np nw
  have "msg = msg_show" by auto
  then show ?thesis using np ce m by simp
qed

text \<open>
  C9 as stated fails when \<open>show\<close> and \<open>debug\<close> are both requested for clips below 256x256:
  \<open>debug\<close> switches \<open>show\<close> off before the size test, and the filter is created.
\<close>

theorem MatchHistogramCreate_listed_counterexample:
  "listed_error show_debug_args \<and>
   MatchHistogramCreate show_debug_args =
     Inr \<lparr>d_raw = False, d_show = False, d_debug = True, d_smoothing_window = 8,
          d_process = [1, 0, 0],
          d_vi = \<lparr>vi_format = Some yuv444p8, vi_width = 256, vi_height = 256\<rparr>\<rparr>"
  by (simp add: listed_error_def small_frames_def flag_of_def show_debug_args_def
      small_clip_def clip3_info_def MatchHistogramCreate_def yuv444p8_def initial_process_def)

section \<open>The accumulation pass\<close>

lemma fold_concat_rows: "fold f (concat xss) = fold (fold f) xss"
  by (induction xss) simp_all

lemma unat_byte: "unat (x :: 8 word) < 256"
  using unsigned_less [of x, where ?'a = nat] by simp

lemma populate_offsets:
  "populate ptr1 ptr2 width height stride cd =
     fold (accumulate ptr1 ptr2) (offsets width height stride) cd"
  by (simp add: populate_def offsets_def fold_concat_rows fold_map comp_def)

lemma length_offsets: "length (offsets width height stride) = pixel_count width height"
  by (simp add: offsets_def pixel_count_def length_concat comp_def sum_list_triv)

lemma accumulate_fold:
  assumes "length (sum_arr cd) = 256" "length (div_arr cd) = 256" "v < 256"
  shows "sum_arr (fold (accumulate ptr1 ptr2) offs cd) ! v =
           sum_arr cd ! v +
           of_nat (sum_list (map (\<lambda>off. unat (ptr2 off)) (filter (\<lambda>off. unat (ptr1 off) = v) offs)))
       \<and> div_arr (fold (accumulate ptr1 ptr2) offs cd) ! v =
           div_arr cd ! v + of_nat (length (filter (\<lambda>off. unat (ptr1 off) = v) offs))
       \<and> length (sum_arr (fold (accumulate ptr1 ptr2) offs cd)) = 256
       \<and> length (div_arr (fold (accumulate ptr1 ptr2) offs cd)) = 256
       \<and> curve (fold (accumulate ptr1 ptr2) offs cd) = curve cd"
  using assms
proof (induction offs arbitrary: cd)
  case Nil
  then show ?case by simp
next
  case (Cons off offs)
  let ?cd = "accumulate ptr1 ptr2 off cd"
  have k: "unat (ptr1 off) < 256" by (rule unat_byte)
  have len: "length (sum_arr ?cd) = 256" "length (div_arr ?cd) = 256"
    using Cons.prems by (simp_all add: accumulate_def Let_def)
  have s: "sum_arr ?cd ! v = sum_arr cd ! v + (if unat (ptr1 off) = v then of_nat (unat (ptr2 off)) else 0)"
    using Cons.prems k by (simp add: accumulate_def Let_def nth_list_update)
  have d: "div_arr ?cd ! v = div_arr cd ! v + (if unat (ptr1 off) = v then 1 else 0)"
    using Cons.prems k by (simp add: accumulate_def Let_def nth_list_update)
  have c: "curve ?cd = curve cd" by (simp add: accumulate_def Let_def)
  from Cons.IH [OF len Cons.prems(3)] show ?case
    by (simp add: s d c)
qed

lemma populate_clear:
  assumes "v < 256"
  shows "sum_arr (populate ptr1 ptr2 width height stride clear_data) ! v =
           of_nat (exact_sum ptr1 ptr2 width height stride v)"
    and "div_arr (populate ptr1 ptr2 width height stride clear_data) ! v =
           of_nat (exact_count ptr1 width height stride v)"
    and "length (sum_arr (populate ptr1 ptr2 width height stride clear_data)) = 256"
    and "length (div_arr (populate ptr1 ptr2 width height stride clear_data)) = 256"
    and "curve (populate ptr1 ptr2 width height stride clear_data) = replicate 256 0"
  using accumulate_fold [of clear_data v ptr1 ptr2 "offsets width height stride"] assms
  by (simp_all add: populate_offsets clear_data_def exact_sum_def exact_count_def)

lemma exact_sum_bound:
  "exact_sum ptr1 ptr2 width height stride v \<le> 255 * exact_count ptr1 width height stride v"
proof -
  have "sum_list (map (\<lambda>off. unat (ptr2 off)) xs) \<le> 255 * length xs" for xs :: "int list"
  proof (induction xs)
    case Nil
    then show ?case by simp
  next
    case (Cons x xs)
    have "unat (ptr2 x) \<le> 255" using unat_byte [of "ptr2 x"] by simp
    then show ?case using Cons by simp
  qed
  then show ?thesis by (simp add: exact_sum_def exact_count_def)
qed

lemma exact_count_bound: "exact_count ptr1 width height stride v \<le> pixel_count width height"
  using length_filter_le [of "\<lambda>off. unat (ptr1 off) = v" "offsets width height stride"]
  by (simp only: exact_count_def length_offsets)

text \<open>
  C7 (as amended). After the accumulation pass \<open>sum[v]\<close> holds the exact sum of the value
  samples co-located with key value \<open>v\<close> reduced modulo \<open>2^32\<close>; it is the exact sum whenever
  that sum is below \<open>2^32\<close>, which is the case for every plane of at most 16843009 pixels.
\<close>

theorem accumulator_sum_mod:
  assumes "v < 256"
  shows "unat (sum_arr (populate ptr1 ptr2 width height stride clear_data) ! v) =
           exact_sum ptr1 ptr2 width height stride v mod 4294967296 \<and>
         (exact_sum ptr1 ptr2 width height stride v < 4294967296 \<longrightarrow>
            unat (sum_arr (populate ptr1 ptr2 width height stride clear_data) ! v) =
              exact_sum ptr1 ptr2 width height stride v) \<and>
         (pixel_count width height \<le> 16843009 \<longrightarrow>
            exact_sum ptr1 ptr2 width height stride v < 4294967296)"
proof -
  have 1: "unat (sum_arr (populate ptr1 ptr2 width height stride clear_data) ! v) =
           exact_sum ptr1 ptr2 width height stride v mod 4294967296"
    using assms by (simp add: populate_clear unat_of_nat)
  have 2: "exact_sum ptr1 ptr2 width height stride v < 4294967296"
    if "pixel_count width height \<le> 16843009"
    using that exact_sum_bound [of ptr1 ptr2 width height stride v]
      exact_count_bound [of ptr1 width height stride v] by linarith
  show ?thesis using 1 2 by simp
qed

lemma exact_flat:
  "exact_count (flat_plane k) width height stride v =
     (if v = unat k then pixel_count width height else 0)"
  "exact_sum (flat_plane k) (flat_plane c) width height stride v =
     (if v = unat k then unat c * pixel_count width height else 0)"
  by (auto simp: exact_count_def exact_sum_def flat_plane_def length_offsets sum_list_triv)

text \<open>
  C7 as stated fails for a 7680x4320 plane with one key value and all value samples 255:
  the exact sum 8460288000 is not what the 32-bit accumulator holds.
\<close>

theorem accumulator_overflow_counterexample:
  "exact_sum (flat_plane 0) (flat_plane 255) 7680 4320 7680 0 = 8460288000 \<and>
   unat (sum_arr (populate (flat_plane 0) (flat_plane 255) 7680 4320 7680 clear_data) ! 0)
     = 4165320704"
proof -
  have e: "exact_sum (flat_plane 0) (flat_plane 255) 7680 4320 7680 0 = 8460288000"
    by (simp add: exact_flat pixel_count_def)
  have "unat (sum_arr (populate (flat_plane 0) (flat_plane 255) 7680 4320 7680 clear_data) ! 0)
        = 8460288000 mod 4294967296"
    by (simp add: populate_clear unat_of_nat e)
  then show ?thesis using e by simp
qed

theorem accumulator_sum_mod_witness:
  "(10::nat) < 256 \<and> exact_sum (flat_plane 10) (flat_plane 65) 2 2 2 10 = 260 \<and>
   unat (sum_arr (populate (flat_plane 10) (flat_plane 65) 2 2 2 clear_data) ! 10) = 260"
proof -
  have e: "exact_sum (flat_plane 10) (flat_plane 65) 2 2 2 10 = 260"
    by (simp add: exact_flat pixel_count_def)
  from accumulator_sum_mod [of 10 "flat_plane 10" "flat_plane 65" 2 2 2]
  show ?thesis by (simp add: e)
qed

section \<open>The raw curve and the uniform shortcut\<close>

lemma mean_at_curve_upd [simp]: "mean_at (c\<lparr>curve := x\<rparr>) i = mean_at c i"
  by (simp add: mean_at_def)

lemma curve_loop:
  assumes G: "\<And>c c' i. sum_arr c = sum_arr c' \<Longrightarrow> div_arr c = div_arr c' \<Longrightarrow> G c i = G c' i"
  shows "sum_arr (fold (\<lambda>i c. c\<lparr>curve := (curve c)[i := G c i]\<rparr>) [0..<n] cd) = sum_arr cd \<and>
         div_arr (fold (\<lambda>i c. c\<lparr>curve := (curve c)[i := G c i]\<rparr>) [0..<n] cd) = div_arr cd \<and>
         length (curve (fold (\<lambda>i c. c\<lparr>curve := (curve c)[i := G c i]\<rparr>) [0..<n] cd))
           = length (curve cd) \<and>
         (\<forall>i<length (curve cd).
            curve (fold (\<lambda>i c. c\<lparr>curve := (curve c)[i := G c i]\<rparr>) [0..<n] cd) ! i =
              (if i < n then G cd i else curve cd ! i))"
proof (induction n)
  case 0
  then show ?case by simp
next
  case (Suc n)
  define r where "r = fold (\<lambda>i c. c\<lparr>curve := (curve c)[i := G c i]\<rparr>) [0..<n] cd"
  have r: "sum_arr r = sum_arr cd" "div_arr r = div_arr cd" "length (curve r) = length (curve cd)"
    "\<And>i. i < length (curve cd) \<Longrightarrow> curve r ! i = (if i < n then G cd i else curve cd ! i)"
    using Suc unfolding r_def by simp_all
  have g: "G r n = G cd n" using G r(1,2) by blast
  have step: "fold (\<lambda>i c. c\<lparr>curve := (curve c)[i := G c i]\<rparr>) [0..<Suc n] cd
              = r\<lparr>curve := (curve r)[n := G cd n]\<rparr>"
    by (simp add: r_def [symmetric] g)
  show ?case unfolding step using r by (auto simp: nth_list_update less_Suc_eq)
qed

lemma raw_curve_props:
  assumes "length (curve cd) = 256"
  shows "sum_arr (raw_curve cd) = sum_arr cd" "div_arr (raw_curve cd) = div_arr cd"
    "length (curve (raw_curve cd)) = 256"
    "\<And>i. i < 256 \<Longrightarrow> curve (raw_curve cd) ! i = (if div_arr cd ! i \<noteq> 0 then mean_at cd i else 0)"
proof -
  have G: "(if div_arr c ! i \<noteq> 0 then mean_at c i else 0) =
           (if div_arr c' ! i \<noteq> 0 then mean_at c' i else 0)"
    if "sum_arr c = sum_arr c'" "div_arr c = div_arr c'" for c c' :: CurveData and i
    using that by (simp add: mean_at_def)
  note l = curve_loop [of "\<lambda>c i. if div_arr c ! i \<noteq> 0 then mean_at c i else 0" 256 cd,
      OF G, folded raw_curve_def]
  show "sum_arr (raw_curve cd) = sum_arr cd" "div_arr (raw_curve cd) = div_arr cd"
    "length (curve (raw_curve cd)) = 256"
    "\<And>i. i < 256 \<Longrightarrow> curve (raw_curve cd) ! i = (if div_arr cd ! i \<noteq> 0 then mean_at cd i else 0)"
    using l assms by simp_all
qed

lemma recompute_props:
  assumes "length (curve cd) = 256"
  shows "sum_arr (recompute cd) = sum_arr cd" "div_arr (recompute cd) = div_arr cd"
    "length (curve (recompute cd)) = 256"
    "\<And>i. i < 256 \<Longrightarrow> curve (recompute cd) ! i = mean_at cd i"
proof -
  have G: "mean_at c i = mean_at c' i"
    if "sum_arr c = sum_arr c'" "div_arr c = div_arr c'" for c c' :: CurveData and i
    using that by (simp add: mean_at_def)
  note l = curve_loop [of mean_at 256 cd, OF G, folded recompute_def]
  show "sum_arr (recompute cd) = sum_arr cd" "div_arr (recompute cd) = div_arr cd"
    "length (curve (recompute cd)) = 256"
    "\<And>i. i < 256 \<Longrightarrow> curve (recompute cd) ! i = mean_at cd i"
    using l assms by simp_all
qed

lemma uniform_loop:
  assumes "flat < length (curve cd)"
  shows "sum_arr (fold (\<lambda>i c. c\<lparr>curve := (curve c)[i := curve c ! flat]\<rparr>) [0..<n] cd) = sum_arr cd \<and>
         div_arr (fold (\<lambda>i c. c\<lparr>curve := (curve c)[i := curve c ! flat]\<rparr>) [0..<n] cd) = div_arr cd \<and>
         length (curve (fold (\<lambda>i c. c\<lparr>curve := (curve c)[i := curve c ! flat]\<rparr>) [0..<n] cd))
           = length (curve cd) \<and>
         (\<forall>i<length (curve cd).
            curve (fold (\<lambda>i c. c\<lparr>curve := (curve c)[i := curve c ! flat]\<rparr>) [0..<n] cd) ! i =
              (if i < n then curve cd ! flat else curve cd ! i))"
proof (induction n)
  case 0
  then show ?case by simp
next
  case (Suc n)
  define r where "r = fold (\<lambda>i c. c\<lparr>curve := (curve c)[i := curve c ! flat]\<rparr>) [0..<n] cd"
  have r: "sum_arr r = sum_arr cd" "div_arr r = div_arr cd" "length (curve r) = length (curve cd)"
    "\<And>i. i < length (curve cd) \<Longrightarrow> curve r ! i = (if i < n then curve cd ! flat else curve cd ! i)"
    using Suc unfolding r_def by simp_all
  have g: "curve r ! flat = curve cd ! flat" using r(4) [OF assms] by simp
  have step: "fold (\<lambda>i c. c\<lparr>curve := (curve c)[i := curve c ! flat]\<rparr>) [0..<Suc n] cd
              = r\<lparr>curve := (curve r)[n := curve cd ! flat]\<rparr>"
    by (simp add: r_def [symmetric] g)
  show ?case unfolding step using r by (auto simp: nth_list_update less_Suc_eq)
qed

lemma uniform_props:
  assumes "length (curve cd) = 256" "flat < 256"
  shows "sum_arr (uniform flat cd) = sum_arr cd" "div_arr (uniform flat cd) = div_arr cd"
    "curve (uniform flat cd) = replicate 256 (curve cd ! flat)"
proof -
  note u = uniform_loop [of flat cd 256, folded uniform_def]
  show "sum_arr (uniform flat cd) = sum_arr cd" "div_arr (uniform flat cd) = div_arr cd"
    using u assms by simp_all
  show "curve (uniform flat cd) = replicate 256 (curve cd ! flat)"
    using u assms by (intro nth_equalityI) simp_all
qed

lemma find_flat_seen:
  "find_flat d xs (int k) = (if \<forall>i\<in>set xs. d ! i = 0 then int k else -1)"
  by (induction xs) auto

lemma find_flat_single:
  assumes "distinct xs" "k \<in> set xs" "d ! k \<noteq> 0" "\<forall>i\<in>set xs. i \<noteq> k \<longrightarrow> d ! i = 0"
  shows "find_flat d xs (-1) = int k"
  using assms by (induction xs) (auto simp: find_flat_seen)

lemma find_flat_result:
  assumes "find_flat d xs (-1) \<noteq> -1"
  shows "\<exists>k\<in>set xs. d ! k \<noteq> 0 \<and> (\<forall>i\<in>set xs. i \<noteq> k \<longrightarrow> d ! i = 0) \<and> find_flat d xs (-1) = int k"
  using assms
proof (induction xs)
  case Nil
  then show ?case by simp
next
  case (Cons x xs)
  show ?case
  proof (cases "d ! x \<noteq> 0")
    case True
    then show ?thesis using Cons.prems by (auto simp: find_flat_seen split: if_splits)
  next
    case False
    then show ?thesis using Cons by auto
  qed
qed

lemma find_flat_none:
  assumes "\<forall>i\<in>set xs. d ! i = 0"
  shows "find_flat d xs (-1) = -1"
  using assms by (induction xs) auto

lemma find_flat_two:
  assumes "i \<in> set xs" "j \<in> set xs" "i \<noteq> j" "d ! i \<noteq> 0" "d ! j \<noteq> 0"
  shows "find_flat d xs (-1) = -1"
proof (rule ccontr)
  assume "find_flat d xs (-1) \<noteq> -1"
  from find_flat_result [OF this] obtain k where
    "\<forall>i\<in>set xs. i \<noteq> k \<longrightarrow> d ! i = 0" by blast
  then show False using assms by metis
qed

end
